theory Spec2Isabelle
  imports Main "HOL-Library.Sublist"
begin

section \<open>Data model of the Neural Graph\<close>

text \<open>
  The graph of \<^verbatim>\<open>nemo/core/neural_graph.py\<close> is a Python object that is mutated in place and
  that is shared (the active graph of the application state, a graph passed as an argument
  of another graph). Graphs and tensors therefore live in a store, addressed by object
  identities; a module is an immutable collaborator and is a plain value.
\<close>

datatype OperationMode = training | inference | both

text \<open>
  Modelled from the spec: the class of Neural Modules is not part of the sources. The
  Module Registry gives every module its own unique, stable name, so a module object is
  identified by its name.
\<close>

datatype module = Module (name: string)

type_synonym gid = nat
type_synonym tid = nat

text \<open>
  An object with a \<^verbatim>\<open>name\<close> that can stand as the bound module of an input port: a module,
  or a graph (line 118 of the source binds \<^verbatim>\<open>self\<close>, a graph).
\<close>

datatype interface = IModule module | IGraph gid

text \<open>
  Modelled from the spec: the result of a type comparison
  (\<^verbatim>\<open>NeuralTypeComparisonResult\<close>, not part of the sources).
\<close>

datatype NeuralTypeComparisonResult = SAME | GREATER | LESSER | INCOMPATIBLE

text \<open>
  Modelled from the spec: the Tensor Handle (\<^verbatim>\<open>NmTensor\<close>, not part of the sources), with its
  producer, the arguments of the producer, the list of its consumers and its declared type.
\<close>

record 'nt NmTensor =
  producer :: module
  producer_args :: "string \<rightharpoonup> tid"
  consumers :: "(interface \<times> string) list"
  ntype :: 'nt

text \<open>
  Modelled from the spec: the bound outputs (\<^verbatim>\<open>BoundOutputs\<close>, not part of the sources) are an
  ordered mapping from output name to tensor; \<^verbatim>\<open>keys()\<close> and \<^verbatim>\<open>values()\<close> follow the insertion
  order, and the size is the number of bindings.
\<close>

type_synonym BoundOutputs = "(string \<times> tid) list"

text \<open>
  The fields of \<^verbatim>\<open>NeuralGraph.__init__\<close>. A step is the pair of a module and the inputs it
  was called with; the inputs are opaque to the graph.
\<close>

record ('nt, 'a) NeuralGraph =
  gname :: string
  operation_mode :: OperationMode
  bound_input_ports :: "string \<rightharpoonup> 'nt"
  bound_input_tensors :: "string \<rightharpoonup> tid option"
  bound_input_modules :: "string \<rightharpoonup> interface"
  bound_outputs :: BoundOutputs
  modules :: "string \<rightharpoonup> module"
  steps :: "(module \<times> 'a) list"

text \<open>
  The part of the application state the graph works on: the graph objects, the tensor
  objects and the slot of the active graph (\<^verbatim>\<open>AppState.active_graph\<close>).
\<close>

record ('nt, 'a) app =
  graphs :: "gid \<Rightarrow> ('nt, 'a) NeuralGraph"
  tensors :: "tid \<Rightarrow> 'nt NmTensor"
  active_graph :: "gid option"

text \<open>A keyword argument of a graph call is a graph or a tensor.\<close>

datatype kwarg = KGraph gid | KTensor tid

text \<open>
  The exceptions of \<^verbatim>\<open>__call__\<close>. \<open>TypeError inner outer\<close> is the error of the mode check (the
  spec's ModeIncompatibility); \<open>AttributeError\<close> is the read of \<^verbatim>\<open>operation_mode\<close> on the
  empty slot; \<open>ValueError\<close> is raised by \<^verbatim>\<open>namedtuple\<close> on field names it refuses.
\<close>

datatype 'nt error =
    AttributeError
  | TypeError OperationMode OperationMode
  | NeuralPortNameMismatchError string
  | NeuralPortNmTensorMismatchError string 'nt 'nt NeuralTypeComparisonResult
  | KeyError string
  | ValueError

text \<open>The value a call returns: the single tensor, or a named tuple of the outputs.\<close>

datatype results = Tensor tid | NamedTuple string "(string \<times> tid) list"

section \<open>Operations of the graph\<close>

subsection \<open>Construction, activation\<close>

text \<open>
  \<^verbatim>\<open>__init__\<close>: the name is the one the graph registry of the application state returned for
  the new graph.
\<close>

definition init_graph :: "OperationMode \<Rightarrow> string \<Rightarrow> ('nt, 'a) NeuralGraph" where
  "init_graph mode n =
     \<lparr>gname = n, operation_mode = mode, bound_input_ports = Map.empty,
      bound_input_tensors = Map.empty, bound_input_modules = Map.empty,
      bound_outputs = [], modules = Map.empty, steps = []\<rparr>"

definition enter :: "gid \<Rightarrow> ('nt, 'a) app \<Rightarrow> gid \<times> ('nt, 'a) app" where
  "enter self s = (self, s\<lparr>active_graph := Some self\<rparr>)"

text \<open>\<^verbatim>\<open>__exit__\<close> does not use its three exception arguments.\<close>

definition exit :: "gid \<Rightarrow> ('nt, 'a) app \<Rightarrow> ('nt, 'a) app" where
  "exit self s = s\<lparr>active_graph := None\<rparr>"

definition activate :: "gid \<Rightarrow> ('nt, 'a) app \<Rightarrow> ('nt, 'a) app" where
  "activate self s = s\<lparr>active_graph := Some self\<rparr>"

definition deactivate :: "gid \<Rightarrow> ('nt, 'a) app \<Rightarrow> ('nt, 'a) app" where
  "deactivate self s = s\<lparr>active_graph := None\<rparr>"

subsection \<open>Recording steps, binding inputs\<close>

definition record_step :: "module \<Rightarrow> 'a \<Rightarrow> ('nt, 'a) NeuralGraph \<Rightarrow> ('nt, 'a) NeuralGraph" where
  "record_step m inputs g =
     g\<lparr>modules := (modules g)(name m \<mapsto> m), steps := steps g @ [(m, inputs)]\<rparr>"

definition bind_input ::
  "string \<Rightarrow> 'nt \<Rightarrow> interface \<Rightarrow> ('nt, 'a) NeuralGraph \<Rightarrow> ('nt, 'a) NeuralGraph" where
  "bind_input port_name port_definition bound_module g =
     g\<lparr>bound_input_ports := (bound_input_ports g)(port_name \<mapsto> port_definition),
       bound_input_tensors := (bound_input_tensors g)(port_name \<mapsto> None),
       bound_input_modules := (bound_input_modules g)(port_name \<mapsto> bound_module)\<rparr>"

text \<open>\<^verbatim>\<open>__getitem__\<close>: the module of a name, or \<^verbatim>\<open>KeyError\<close>.\<close>

definition getitem :: "('nt, 'a) NeuralGraph \<Rightarrow> string \<Rightarrow> 'nt error + module" where
  "getitem g key = (case modules g key of None \<Rightarrow> Inl (KeyError key) | Some m \<Rightarrow> Inr m)"

text \<open>The invariant of the spec: every step refers to a module present in \<open>modules\<close>.\<close>

definition steps_in_modules :: "('nt, 'a) NeuralGraph \<Rightarrow> bool" where
  "steps_in_modules g = (\<forall>st \<in> set (steps g). modules g (name (fst st)) = Some (fst st))"

subsection \<open>Calling a graph\<close>

text \<open>
  Lines 77 to 91: the four pairs of modes that \<^verbatim>\<open>__call__\<close> refuses, in the order of the
  source. The result is the exception raised, if any.
\<close>

definition mode_check :: "OperationMode \<Rightarrow> OperationMode \<Rightarrow> 'nt error option" where
  "mode_check inner_mode outer_mode =
     (if inner_mode = inference \<and> outer_mode = training then Some (TypeError inference training)
      else if inner_mode = training \<and> outer_mode = inference then Some (TypeError training inference)
      else if inner_mode = training \<and> outer_mode = both then Some (TypeError training both)
      else if inner_mode = inference \<and> outer_mode = both then Some (TypeError inference both)
      else None)"

text \<open>\<^verbatim>\<open>record_step(*step)\<close> on the graph object \<open>outer\<close> of the store.\<close>

definition record_step_in :: "gid \<Rightarrow> module \<times> 'a \<Rightarrow> ('nt, 'a) app \<Rightarrow> ('nt, 'a) app" where
  "record_step_in outer step s =
     s\<lparr>graphs := (graphs s)(outer := record_step (fst step) (snd step) (graphs s outer))\<rparr>"

text \<open>
  Lines 100 and 101: the loop over \<^verbatim>\<open>self._steps\<close>. A Python list iterator holds an index and
  reads the live list at every turn, and the body appends to the steps of the active
  graph, which may be the same list; so the loop is a recursion on the index over the
  current store, and it does not end when the graph is replayed into itself. \<open>None\<close> is
  the loop that never returns (on a machine it runs until the memory is used up). The
  active graph is not reassigned by the body, so it is passed as \<open>outer\<close>.
\<close>

partial_function (option) replay ::
  "gid \<Rightarrow> gid \<Rightarrow> nat \<Rightarrow> ('nt, 'a) app \<Rightarrow> ('nt, 'a) app option" where
  "replay self outer i s =
     (if i < length (steps (graphs s self))
      then replay self outer (Suc i) (record_step_in outer (steps (graphs s self) ! i) s)
      else Some s)"

text \<open>
  Modelled from the spec: \<^verbatim>\<open>NmTensor.add_consumer\<close> is not part of the sources; the list of
  consumers of a Tensor Handle grows by appending the pair of the consumer and the port.
\<close>

definition add_consumer :: "interface \<Rightarrow> string \<Rightarrow> 'nt NmTensor \<Rightarrow> 'nt NmTensor" where
  "add_consumer consumer port_name t = t\<lparr>consumers := consumers t @ [(consumer, port_name)]\<rparr>"

text \<open>The \<^verbatim>\<open>name\<close> of a bound module: of the module, or of the graph object.\<close>

definition interface_name :: "('nt, 'a) app \<Rightarrow> interface \<Rightarrow> string" where
  "interface_name s x = (case x of IModule m \<Rightarrow> name m | IGraph g \<Rightarrow> gname (graphs s g))"

text \<open>Lines 153 to 156: the body of the loop over the bound outputs.\<close>

definition update_output ::
  "string \<Rightarrow> string \<Rightarrow> tid \<Rightarrow> tid \<Rightarrow> (tid \<Rightarrow> 'nt NmTensor) \<Rightarrow> (tid \<Rightarrow> 'nt NmTensor)" where
  "update_output producer_name port_name input_object output_tensor ts =
     (if name (producer (ts output_tensor)) = producer_name
      then ts(output_tensor := (ts output_tensor)
             \<lparr>producer_args := (producer_args (ts output_tensor))(port_name \<mapsto> input_object)\<rparr>)
      else ts)"

text \<open>
  Lines 108 to 156: the body of the loop over the keyword arguments. The comparison of a
  port definition with the type of a tensor (\<^verbatim>\<open>NeuralType.compare\<close>, not part of the sources)
  is the parameter \<open>compare\<close>. Every exception is raised before the body changes anything.
\<close>

definition bind_kwarg ::
  "('nt \<Rightarrow> 'nt \<Rightarrow> NeuralTypeComparisonResult) \<Rightarrow> gid \<Rightarrow> string \<times> kwarg \<Rightarrow> ('nt, 'a) app
   \<Rightarrow> 'nt error + ('nt, 'a) app" where
  "bind_kwarg compare self kw s =
     (case kw of (input_port_name, input_object) \<Rightarrow>
        (case bound_input_ports (graphs s self) input_port_name of
           None \<Rightarrow> Inl (NeuralPortNameMismatchError input_port_name)
         | Some port_def \<Rightarrow>
            (case input_object of
               KGraph h \<Rightarrow>
                 Inr (s\<lparr>graphs := (graphs s)
                        (h := bind_input input_port_name port_def (IGraph self) (graphs s h))\<rparr>)
             | KTensor t \<Rightarrow>
                 (let type_comatibility = compare port_def (ntype (tensors s t)) in
                  if type_comatibility \<noteq> SAME \<and> type_comatibility \<noteq> GREATER
                  then Inl (NeuralPortNmTensorMismatchError input_port_name port_def
                              (ntype (tensors s t)) type_comatibility)
                  else
                    (case bound_input_modules (graphs s self) input_port_name of
                       None \<Rightarrow> Inl (KeyError input_port_name)
                     | Some consumer \<Rightarrow>
                         Inr (s\<lparr>tensors :=
                                fold (update_output (interface_name s consumer) input_port_name t)
                                  (map snd (bound_outputs (graphs s self)))
                                  ((tensors s)(t := add_consumer consumer input_port_name
                                                      (tensors s t)))\<rparr>))))))"

text \<open>
  Line 107: the loop over the keyword arguments, in their order. An exception ends it, and
  the store keeps what the earlier arguments changed.
\<close>

fun bind_kwargs ::
  "('nt \<Rightarrow> 'nt \<Rightarrow> NeuralTypeComparisonResult) \<Rightarrow> gid \<Rightarrow> (string \<times> kwarg) list \<Rightarrow> ('nt, 'a) app
   \<Rightarrow> 'nt error option \<times> ('nt, 'a) app" where
  "bind_kwargs compare self [] s = (None, s)"
| "bind_kwargs compare self (kw # kws) s =
     (case bind_kwarg compare self kw s of
        Inl e \<Rightarrow> (Some e, s)
      | Inr s' \<Rightarrow> bind_kwargs compare self kws s')"

text \<open>
  Lines 161 to 173: the value returned. \<^verbatim>\<open>namedtuple\<close> of the standard library refuses some
  lists of field names (a name that is no identifier, a keyword, a name with a leading
  underscore, a name that occurs twice) with \<^verbatim>\<open>ValueError\<close>; which lists it accepts is the
  parameter \<open>valid_field_names\<close>.
\<close>

definition call_results ::
  "(string list \<Rightarrow> bool) \<Rightarrow> ('nt, 'a) NeuralGraph \<Rightarrow> 'nt error + results" where
  "call_results valid_field_names g =
     (case bound_outputs g of
        [out] \<Rightarrow> Inr (Tensor (snd out))
      | outs \<Rightarrow>
          if valid_field_names (map fst outs)
          then Inr (NamedTuple ''NeuralGraphOutput'' (zip (map fst outs) (map snd outs)))
          else Inl ValueError)"

text \<open>
  \<^verbatim>\<open>NeuralGraph.__call__\<close>. The result is \<open>None\<close> when the call never returns; otherwise it is
  the exception raised or the value returned, with the store the call leaves.
\<close>

definition call ::
  "('nt \<Rightarrow> 'nt \<Rightarrow> NeuralTypeComparisonResult) \<Rightarrow> (string list \<Rightarrow> bool) \<Rightarrow> gid
   \<Rightarrow> (string \<times> kwarg) list \<Rightarrow> ('nt, 'a) app
   \<Rightarrow> (('nt error + results) \<times> ('nt, 'a) app) option" where
  "call compare valid_field_names self kwargs s =
     (case active_graph s of
        None \<Rightarrow> Some (Inl AttributeError, s)
      | Some outer \<Rightarrow>
         (case mode_check (operation_mode (graphs s self)) (operation_mode (graphs s outer)) of
            Some e \<Rightarrow> Some (Inl e, s)
          | None \<Rightarrow>
             (case replay self outer 0 s of
                None \<Rightarrow> None
              | Some s1 \<Rightarrow>
                 (case bind_kwargs compare self kwargs s1 of
                    (Some e, s2) \<Rightarrow> Some (Inl e, s2)
                  | (None, s2) \<Rightarrow> Some (call_results valid_field_names (graphs s2 self), s2)))))"

text \<open>
  The store the replay loop leaves when it ends: every step of \<open>self\<close> from index \<open>i\<close> on
  has been recorded, in order, into \<open>outer\<close>.
\<close>

definition replayed :: "gid \<Rightarrow> gid \<Rightarrow> nat \<Rightarrow> ('nt, 'a) app \<Rightarrow> ('nt, 'a) app" where
  "replayed self outer i s =
     s\<lparr>graphs := (graphs s)(outer :=
          fold (\<lambda>st. record_step (fst st) (snd st)) (drop i (steps (graphs s self)))
            (graphs s outer))\<rparr>"

text \<open>
  The converse of \<open>steps_in_modules\<close>: every entry of \<open>modules\<close> is the module of a step,
  stored under its name. A graph that was built by \<open>record_step\<close> has it.
\<close>

definition modules_in_steps :: "('nt, 'a) NeuralGraph \<Rightarrow> bool" where
  "modules_in_steps g =
     (\<forall>n \<in> dom (modules g). modules g n = Some (Module n) \<and> Module n \<in> fst ` set (steps g))"

subsection \<open>The singleton of the application state\<close>

text \<open>
  \<^verbatim>\<open>nemo/utils/app_state.py\<close>. The metaclass keeps one instance per class in
  \<^verbatim>\<open>__instances\<close>, guarded by \<^verbatim>\<open>__lock\<close>. An instance is an object reference: the objects
  created so far are the list \<open>objects\<close>, and a reference is an index into it. The
  constructor of the class (\<^verbatim>\<open>super().__call__\<close>) is the parameter \<open>new\<close>.
\<close>

datatype DeviceType = CPU | GPU

text \<open>
  \<^verbatim>\<open>AppState.__init__\<close>: the device defaults to the GPU. The two registries it creates are
  objects of classes that are not part of the sources; they start empty and are left out.
\<close>

record AppState =
  device :: DeviceType

definition AppState_init :: "DeviceType option \<Rightarrow> AppState" where
  "AppState_init dev = \<lparr>device = (case dev of None \<Rightarrow> GPU | Some d \<Rightarrow> d)\<rparr>"

record ('c, 'o) Singleton =
  instances :: "'c \<rightharpoonup> nat"
  objects :: "'o list"
  lock :: bool

datatype singleton_error = InstanceKeyError

text \<open>Line 44: the read \<^verbatim>\<open>cls.__instances[cls]\<close>.\<close>

definition get_instance :: "('c, 'o) Singleton \<Rightarrow> 'c \<Rightarrow> singleton_error + nat" where
  "get_instance st cls =
     (case instances st cls of None \<Rightarrow> Inl InstanceKeyError | Some r \<Rightarrow> Inr r)"

text \<open>
  \<^verbatim>\<open>Singleton.__call__\<close>, lines 34 to 44, with both tests of the source. The lock is not
  reentrant: a call that needs the lock while it is held never returns (\<open>None\<close>).
\<close>

definition Singleton_call ::
  "('c \<Rightarrow> 'args \<Rightarrow> 'o) \<Rightarrow> 'c \<Rightarrow> 'args \<Rightarrow> ('c, 'o) Singleton
   \<Rightarrow> ((singleton_error + nat) \<times> ('c, 'o) Singleton) option" where
  "Singleton_call new cls args st =
     (if instances st cls = None then
        (if lock st then None
         else
           (let st1 = st\<lparr>lock := True\<rparr>;
                st2 = (if instances st1 cls = None
                       then st1\<lparr>instances := (instances st1)(cls \<mapsto> length (objects st1)),
                                objects := objects st1 @ [new cls args]\<rparr>
                       else st1);
                st3 = st2\<lparr>lock := False\<rparr>
            in Some (get_instance st3 cls, st3)))
      else Some (get_instance st cls, st))"

text \<open>A sequence of calls of the accessor of one class, one argument list per call.\<close>

fun Singleton_calls ::
  "('c \<Rightarrow> 'args \<Rightarrow> 'o) \<Rightarrow> 'c \<Rightarrow> 'args list \<Rightarrow> ('c, 'o) Singleton
   \<Rightarrow> ((singleton_error + nat) list \<times> ('c, 'o) Singleton) option" where
  "Singleton_calls new cls [] st = Some ([], st)"
| "Singleton_calls new cls (args # rest) st =
     (case Singleton_call new cls args st of
        None \<Rightarrow> None
      | Some (r, st1) \<Rightarrow>
          (case Singleton_calls new cls rest st1 of
             None \<Rightarrow> None
           | Some (rs, st2) \<Rightarrow> Some (r # rs, st2)))"

text \<open>The class attributes at the start of the process.\<close>

definition Singleton_init :: "('c, 'o) Singleton" where
  "Singleton_init = \<lparr>instances = Map.empty, objects = [], lock = False\<rparr>"

subsection \<open>A concrete application state\<close>

text \<open>
  Graph 0 has recorded one step of the module \<open>tm\<close>, has the input port \<open>x\<close> of type 0 bound
  to \<open>tm\<close>, and has the output \<open>y_pred\<close>, the tensor 1 that \<open>tm\<close> produced. Every other graph
  is new. Tensor 0 has the type of the port, tensor 2 has another type. Two types compare
  as \<open>SAME\<close> when they are equal and as \<open>INCOMPATIBLE\<close> otherwise.
\<close>

definition example_graph :: "OperationMode \<Rightarrow> (nat, nat) NeuralGraph" where
  "example_graph mode =
     (bind_input ''x'' 0 (IModule (Module ''tm''))
        (record_step (Module ''tm'') 0 (init_graph mode ''g'')))\<lparr>bound_outputs := [(''y_pred'', 1)]\<rparr>"

definition example_app :: "OperationMode \<Rightarrow> OperationMode \<Rightarrow> gid option \<Rightarrow> (nat, nat) app" where
  "example_app inner_mode outer_mode act =
     \<lparr>graphs = (\<lambda>_. init_graph outer_mode ''outer'')(0 := example_graph inner_mode),
      tensors = (\<lambda>_. \<lparr>producer = Module ''source'', producer_args = Map.empty,
                      consumers = [], ntype = 0\<rparr>)
                (1 := \<lparr>producer = Module ''tm'', producer_args = Map.empty,
                        consumers = [], ntype = 0\<rparr>,
                 2 := \<lparr>producer = Module ''source'', producer_args = Map.empty,
                        consumers = [], ntype = 7\<rparr>),
      active_graph = act\<rparr>"

definition example_compare :: "nat \<Rightarrow> nat \<Rightarrow> NeuralTypeComparisonResult" where
  "example_compare a b = (if a = b then SAME else INCOMPATIBLE)"

text \<open>
  The field names that \<^verbatim>\<open>namedtuple\<close> accepts, for names written in ASCII: every name is an
  identifier, is no keyword of Python 3 and has no leading underscore, and no name occurs
  twice.
\<close>

definition python_keywords :: "string list" where
  "python_keywords =
     [''False'', ''None'', ''True'', ''and'', ''as'', ''assert'', ''async'', ''await'', ''break'',
      ''class'', ''continue'', ''def'', ''del'', ''elif'', ''else'', ''except'', ''finally'', ''for'',
      ''from'', ''global'', ''if'', ''import'', ''in'', ''is'', ''lambda'', ''nonlocal'', ''not'',
      ''or'', ''pass'', ''raise'', ''return'', ''try'', ''while'', ''with'', ''yield'']"

definition identifier_start :: "char \<Rightarrow> bool" where
  "identifier_start c =
     (c \<in> set ''abcdefghijklmnopqrstuvwxyzABCDEFGHIJKLMNOPQRSTUVWXYZ_'')"

definition identifier_char :: "char \<Rightarrow> bool" where
  "identifier_char c = (identifier_start c \<or> c \<in> set ''0123456789'')"

definition isidentifier :: "string \<Rightarrow> bool" where
  "isidentifier n =
     (case n of [] \<Rightarrow> False | c # cs \<Rightarrow> identifier_start c \<and> list_all identifier_char cs)"

definition example_valid_name :: "string \<Rightarrow> bool" where
  "example_valid_name n =
     (isidentifier n \<and> n \<notin> set python_keywords \<and> take 1 n \<noteq> ''_'')"

definition example_valid_names :: "string list \<Rightarrow> bool" where
  "example_valid_names names = (list_all example_valid_name names \<and> distinct names)"

text \<open>
  The same application state, where graph 0 has a second bound output, \<open>loss\<close>, the
  tensor 2.
\<close>

definition example_two_outputs :: "(nat, nat) app" where
  "example_two_outputs =
     (example_app both both (Some 1))
       \<lparr>graphs := (graphs (example_app both both (Some 1)))
          (0 := (example_graph both)\<lparr>bound_outputs := [(''y_pred'', 1), (''loss'', 2)]\<rparr>)\<rparr>"

section \<open>Properties\<close>

subsection \<open>Recording steps\<close>

lemma steps_record_step: "steps (record_step m a g) = steps g @ [(m, a)]"
  by (simp add: record_step_def)

lemma modules_record_step: "modules (record_step m a g) = (modules g)(name m \<mapsto> m)"
  by (simp add: record_step_def)

lemma modules_in_steps_record_step:
  "modules_in_steps (init_graph mode n)" "modules_in_steps g \<Longrightarrow> modules_in_steps (record_step m a g)"
  by (cases m; auto simp: modules_in_steps_def init_graph_def record_step_def image_iff split: if_splits)+

lemma fold_record_step_fields:
  "gname (fold (\<lambda>st. record_step (fst st) (snd st)) xs g) = gname g
   \<and> operation_mode (fold (\<lambda>st. record_step (fst st) (snd st)) xs g) = operation_mode g
   \<and> bound_input_ports (fold (\<lambda>st. record_step (fst st) (snd st)) xs g) = bound_input_ports g
   \<and> bound_input_tensors (fold (\<lambda>st. record_step (fst st) (snd st)) xs g) = bound_input_tensors g
   \<and> bound_input_modules (fold (\<lambda>st. record_step (fst st) (snd st)) xs g) = bound_input_modules g
   \<and> bound_outputs (fold (\<lambda>st. record_step (fst st) (snd st)) xs g) = bound_outputs g"
  by (induction xs arbitrary: g) (simp_all add: record_step_def)

lemma fold_record_step_steps:
  "steps (fold (\<lambda>st. record_step (fst st) (snd st)) xs g) = steps g @ xs"
  by (induction xs arbitrary: g) (simp_all add: record_step_def)

lemma fold_record_step_modules:
  "modules (fold (\<lambda>st. record_step (fst st) (snd st)) xs g) n =
     (if n \<in> name ` fst ` set xs then Some (Module n) else modules g n)"
proof (induction xs arbitrary: g)
  case Nil
  then show ?case by simp
next
  case (Cons x xs)
  show ?case
    by (cases "fst x") (auto simp: Cons.IH modules_record_step image_iff)
qed

text \<open>
  C8. Every entry of \<open>steps\<close> refers to a module present in \<open>modules\<close>, and \<open>record_step\<close>
  keeps it so: it appends the pair of the module and its arguments to \<open>steps\<close>, stores the
  module in \<open>modules\<close> under its name, and leaves \<open>modules\<close> as it is when the module is
  already there (recording it a second time changes \<open>modules\<close> no further). The graph
  a constructor returns has the invariant, and \<open>bind_input\<close>, the only other operation that
  writes a graph, keeps it too.
\<close>

theorem record_step_invariant:
  "steps (record_step m a g) = steps g @ [(m, a)]
   \<and> modules (record_step m a g) = (modules g)(name m \<mapsto> m)
   \<and> (modules g (name m) = Some m \<longrightarrow> modules (record_step m a g) = modules g)
   \<and> modules (record_step m b (record_step m a g)) = modules (record_step m a g)
   \<and> steps_in_modules (init_graph mode n :: ('nt, 'a) NeuralGraph)
   \<and> (steps_in_modules g \<longrightarrow> steps_in_modules (record_step m a g))
   \<and> (steps_in_modules g \<longrightarrow> steps_in_modules (bind_input p d bm g))"
proof -
  have pres: "steps_in_modules (record_step m a g)" if inv: "steps_in_modules g"
    unfolding steps_in_modules_def
  proof
    fix st assume st: "st \<in> set (steps (record_step m a g))"
    show "modules (record_step m a g) (name (fst st)) = Some (fst st)"
    proof (cases "name (fst st) = name m")
      case True
      then have "fst st = m" by (simp add: module.expand)
      then show ?thesis by (simp add: modules_record_step)
    next
      case False
      then have "st \<in> set (steps g)"
        using st by (auto simp: steps_record_step)
      then show ?thesis
        using inv False by (simp add: steps_in_modules_def modules_record_step)
    qed
  qed
  have idem: "modules (record_step m a g) = modules g" if "modules g (name m) = Some m"
    using that by (simp add: modules_record_step map_upd_triv)
  have bind: "steps_in_modules (bind_input p d bm g)" if "steps_in_modules g"
    using that by (simp add: steps_in_modules_def bind_input_def)
  have new: "steps_in_modules (init_graph mode n :: ('nt, 'a) NeuralGraph)"
    by (simp add: steps_in_modules_def init_graph_def)
  show ?thesis
    using pres idem bind new
    by (simp add: steps_record_step modules_record_step)
qed

theorem record_step_invariant_witness:
  "steps_in_modules (record_step (Module ''tm'') (0::nat) (init_graph both ''g'' :: (nat, nat) NeuralGraph))
   \<and> modules (record_step (Module ''tm'') (0::nat) (init_graph both ''g'' :: (nat, nat) NeuralGraph))
        (name (Module ''tm'')) = Some (Module ''tm'')
   \<and> steps_in_modules (record_step (Module ''tm'') (1::nat)
        (record_step (Module ''tm'') 0 (init_graph both ''g'' :: (nat, nat) NeuralGraph)))
   \<and> modules (record_step (Module ''tm'') (1::nat)
        (record_step (Module ''tm'') 0 (init_graph both ''g'' :: (nat, nat) NeuralGraph)))
      = modules (record_step (Module ''tm'') 0 (init_graph both ''g'' :: (nat, nat) NeuralGraph))
   \<and> steps (record_step (Module ''tm'') (1::nat)
        (record_step (Module ''tm'') 0 (init_graph both ''g'' :: (nat, nat) NeuralGraph)))
      = [(Module ''tm'', 0), (Module ''tm'', 1)]"
proof -
  let ?g0 = "init_graph both ''g'' :: (nat, nat) NeuralGraph"
  let ?g1 = "record_step (Module ''tm'') (0::nat) ?g0"
  have inv1: "steps_in_modules ?g1"
    using record_step_invariant [of "Module ''tm''" 0 ?g0 0 both "''g''"] by blast
  have m1: "modules ?g1 (name (Module ''tm'')) = Some (Module ''tm'')"
    by (simp add: record_step_def)
  have inv2: "steps_in_modules (record_step (Module ''tm'') 1 ?g1)"
    using inv1 record_step_invariant [of "Module ''tm''" 1 ?g1 1 both "''g''"] by blast
  have same: "modules (record_step (Module ''tm'') 1 ?g1) = modules ?g1"
    using m1 record_step_invariant [of "Module ''tm''" 1 ?g1 1 both "''g''"] by blast
  have st: "steps (record_step (Module ''tm'') 1 ?g1) = [(Module ''tm'', 0), (Module ''tm'', 1)]"
    by (simp add: record_step_def init_graph_def)
  show ?thesis
    using inv1 m1 inv2 same st by blast
qed

subsection \<open>Activation and deactivation\<close>

text \<open>
  C10. \<open>deactivate\<close> and the exit of the scoped activation set the slot of the active
  graph to none, whatever it held: no earlier graph is restored, also when another graph
  was activated after this one, and leaving a nested activation leaves no graph active.
  Nothing else of the store changes.
\<close>

theorem deactivate_clears_active_graph:
  "active_graph (deactivate g s) = None
   \<and> active_graph (exit g s) = None
   \<and> active_graph (deactivate g (activate h (activate g s))) = None
   \<and> active_graph (exit g (snd (enter h (snd (enter g s))))) = None
   \<and> active_graph (exit inner (snd (enter inner (snd (enter outer s))))) = None
   \<and> graphs (deactivate g s) = graphs s \<and> tensors (deactivate g s) = tensors s
   \<and> graphs (exit g s) = graphs s \<and> tensors (exit g s) = tensors s"
  by (simp add: deactivate_def exit_def activate_def enter_def)

subsection \<open>The replay loop\<close>

lemma replay_other:
  "self \<noteq> outer \<Longrightarrow> replay self outer i s = Some (replayed self outer i s)"
proof (induction "length (steps (graphs s self)) - i" arbitrary: i s)
  case 0
  then show ?case by (subst replay.simps) (simp add: replayed_def)
next
  case (Suc n)
  let ?s1 = "record_step_in outer (steps (graphs s self) ! i) s"
  have lt: "i < length (steps (graphs s self))" using Suc.hyps(2) by simp
  have same: "graphs ?s1 self = graphs s self"
    using Suc.prems by (simp add: record_step_in_def)
  have "replay self outer (Suc i) ?s1 = Some (replayed self outer (Suc i) ?s1)"
    using Suc.hyps(2) Suc.prems same by (intro Suc.hyps(1)) simp_all
  moreover have "replayed self outer (Suc i) ?s1 = replayed self outer i s"
    using lt same by (simp add: replayed_def record_step_in_def Cons_nth_drop_Suc [symmetric])
  ultimately show ?case using lt by (subst replay.simps) simp
qed

lemma replay_self_aux:
  assumes "replay self outer i s = Some s'"
  shows "self = outer \<longrightarrow> length (steps (graphs s self)) \<le> i \<and> s' = s"
proof (rule replay.raw_induct [where P = "\<lambda>self outer i s s'. self = outer \<longrightarrow> length (steps (graphs s self)) \<le> i \<and> s' = s", OF _ assms])
  fix rp :: "nat \<Rightarrow> nat \<Rightarrow> nat \<Rightarrow> ('a, 'b) app \<Rightarrow> ('a, 'b) app option" 
  fix self outer i s s'
  assume IH: "\<And>a b c d y. rp a b c d = Some y \<Longrightarrow> a = b \<longrightarrow> length (steps (graphs d a)) \<le> c \<and> y = d"
    and eq: "(if i < length (steps (graphs s self))
      then rp self outer (Suc i) (record_step_in outer (steps (graphs s self) ! i) s)
      else Some s) = Some s'"
  show "self = outer \<longrightarrow> length (steps (graphs s self)) \<le> i \<and> s' = s"
  proof (cases "i < length (steps (graphs s self))")
    case True
    then have "rp self outer (Suc i) (record_step_in outer (steps (graphs s self) ! i) s) = Some s'"
      using eq by simp
    from IH [OF this] have "self = outer \<longrightarrow> length (steps (graphs (record_step_in outer (steps (graphs s self) ! i) s) self)) \<le> Suc i" by simp
    then show ?thesis using True by (auto simp add: record_step_in_def record_step_def)
  next
    case False
    then show ?thesis using eq by auto
  qed
qed

lemma replay_self_None:
  "i < length (steps (graphs s self)) \<Longrightarrow> replay self self i s = None"
  using replay_self_aux [of self self i s] by (cases "replay self self i s") auto

lemma replay_Some:
  assumes "replay self outer i s = Some s'"
  shows "s' = replayed self outer i s"
proof (cases "self = outer")
  case True
  then have "length (steps (graphs s self)) \<le> i" "s' = s" using replay_self_aux [OF assms] by auto
  then show ?thesis using True by (simp add: replayed_def)
next
  case False
  then show ?thesis using replay_other [OF False, of i s] assms by simp
qed

lemma replay_Some_steps:
  assumes "replay self outer i s = Some s'"
  shows "steps (graphs s' self) = steps (graphs s self)"
proof (cases "self = outer")
  case True
  then show ?thesis using replay_self_aux [OF assms] by auto
next
  case False
  then show ?thesis using replay_Some [OF assms] by (simp add: replayed_def)
qed

lemma replay_fields:
  assumes "replay self outer i s = Some s'"
  shows "tensors s' = tensors s" and "active_graph s' = active_graph s"
    and "gname (graphs s' g) = gname (graphs s g)"
    and "operation_mode (graphs s' g) = operation_mode (graphs s g)"
    and "bound_input_ports (graphs s' g) = bound_input_ports (graphs s g)"
    and "bound_input_tensors (graphs s' g) = bound_input_tensors (graphs s g)"
    and "bound_input_modules (graphs s' g) = bound_input_modules (graphs s g)"
    and "bound_outputs (graphs s' g) = bound_outputs (graphs s g)"
  using replay_Some [OF assms]
  by (simp_all add: replayed_def fold_record_step_fields)

subsection \<open>One keyword argument\<close>

lemma fold_update_output:
  "fold (update_output pn p t) os ts =
     (\<lambda>x. if x \<in> set os \<and> name (producer (ts x)) = pn
          then (ts x)\<lparr>producer_args := (producer_args (ts x))(p \<mapsto> t)\<rparr> else ts x)"
proof (induction os arbitrary: ts)
  case Nil
  then show ?case by simp
next
  case (Cons a os)
  show ?case
    by (simp add: Cons.IH) (auto simp: update_output_def fun_eq_iff)
qed

lemma bind_kwarg_graph_fields:
  assumes "bind_kwarg compare self kw s = Inr s'"
  shows "active_graph s' = active_graph s"
    and "steps (graphs s' g) = steps (graphs s g)"
    and "modules (graphs s' g) = modules (graphs s g)"
    and "bound_outputs (graphs s' g) = bound_outputs (graphs s g)"
    and "gname (graphs s' g) = gname (graphs s g)"
    and "operation_mode (graphs s' g) = operation_mode (graphs s g)"
  using assms
  by (auto simp: bind_kwarg_def bind_input_def Let_def
           split: prod.splits option.splits kwarg.splits if_splits)

lemma bind_kwarg_self_ports:
  assumes "bind_kwarg compare self kw s = Inr s'"
  shows "bound_input_ports (graphs s' self) = bound_input_ports (graphs s self)"
  using assms
  by (auto simp: bind_kwarg_def bind_input_def Let_def map_upd_triv
           split: prod.splits option.splits kwarg.splits if_splits)

lemma bind_kwarg_other_ports:
  assumes "bind_kwarg compare self kw s = Inr s'" and "q \<noteq> fst kw"
  shows "bound_input_ports (graphs s' g) q = bound_input_ports (graphs s g) q"
    and "bound_input_modules (graphs s' g) q = bound_input_modules (graphs s g) q"
    and "bound_input_tensors (graphs s' g) q = bound_input_tensors (graphs s g) q"
  using assms
  by (auto simp: bind_kwarg_def bind_input_def Let_def
           split: prod.splits option.splits kwarg.splits if_splits)



lemma bind_kwarg_bound_module:
  assumes "bind_kwarg compare self kw s = Inr s'"
    and "bound_input_modules (graphs s g) q \<noteq> None"
  shows "bound_input_modules (graphs s' g) q \<noteq> None"
  using assms
  by (auto simp: bind_kwarg_def bind_input_def Let_def
           split: prod.splits option.splits kwarg.splits if_splits)

lemma bind_kwarg_tensor_fields:
  assumes "bind_kwarg compare self kw s = Inr s'"
  shows "producer (tensors s' x) = producer (tensors s x)"
    and "ntype (tensors s' x) = ntype (tensors s x)"
    and "\<exists>rest. consumers (tensors s' x) = consumers (tensors s x) @ rest"
    and "q \<noteq> fst kw \<Longrightarrow> producer_args (tensors s' x) q = producer_args (tensors s x) q"
  using assms
  by (auto simp: bind_kwarg_def Let_def fold_update_output add_consumer_def
           split: prod.splits option.splits kwarg.splits if_splits)

lemma bind_kwarg_not_TypeError:
  "bind_kwarg compare self kw s \<noteq> Inl (TypeError a b)"
  by (auto simp: bind_kwarg_def Let_def
           split: prod.splits option.splits kwarg.splits if_splits)

lemma bind_kwarg_tensor:
  assumes "bound_input_ports (graphs s self) p = Some d"
    and "compare d (ntype (tensors s t)) = SAME \<or> compare d (ntype (tensors s t)) = GREATER"
    and "bound_input_modules (graphs s self) p = Some bm"
  shows "bind_kwarg compare self (p, KTensor t) s =
     Inr (s\<lparr>tensors := fold (update_output (interface_name s bm) p t)
                         (map snd (bound_outputs (graphs s self)))
                         ((tensors s)(t := add_consumer bm p (tensors s t)))\<rparr>)"
  using assms by (auto simp: bind_kwarg_def)

lemma bind_kwarg_tensor_refused:
  assumes "bound_input_ports (graphs s self) p = Some d"
    and "compare d (ntype (tensors s t)) \<noteq> SAME" and "compare d (ntype (tensors s t)) \<noteq> GREATER"
  shows "bind_kwarg compare self (p, KTensor t) s =
     Inl (NeuralPortNmTensorMismatchError p d (ntype (tensors s t)) (compare d (ntype (tensors s t))))"
  using assms by (simp add: bind_kwarg_def)

lemma interface_name_cong:
  "(\<And>g. gname (graphs s' g) = gname (graphs s g)) \<Longrightarrow> interface_name s' x = interface_name s x"
  by (simp add: interface_name_def split: interface.splits)

subsection \<open>The loop over the keyword arguments\<close>

lemma bind_kwargs_append:
  "bind_kwargs compare self pre s = (None, s2) \<Longrightarrow>
   bind_kwargs compare self (pre @ post) s = bind_kwargs compare self post s2"
  by (induction pre arbitrary: s) (auto split: sum.splits)

lemma bind_kwargs_graph_fields:
  assumes "bind_kwargs compare self kws s = (e, s')"
  shows "active_graph s' = active_graph s \<and> steps (graphs s' g) = steps (graphs s g)
    \<and> modules (graphs s' g) = modules (graphs s g)
    \<and> bound_outputs (graphs s' g) = bound_outputs (graphs s g)
    \<and> gname (graphs s' g) = gname (graphs s g)
    \<and> operation_mode (graphs s' g) = operation_mode (graphs s g)"
  using assms
proof (induction kws arbitrary: s)
  case Nil
  then show ?case by simp
next
  case (Cons kw kws)
  show ?case
  proof (cases "bind_kwarg compare self kw s")
    case (Inl err)
    then show ?thesis using Cons.prems by simp
  next
    case (Inr s1)
    then have "bind_kwargs compare self kws s1 = (e, s')" using Cons.prems by simp
    from Cons.IH [OF this] show ?thesis
      by (simp add: bind_kwarg_graph_fields [OF Inr])
  qed
qed

lemma bind_kwargs_self_ports:
  assumes "bind_kwargs compare self kws s = (e, s')"
  shows "bound_input_ports (graphs s' self) = bound_input_ports (graphs s self)"
  using assms
proof (induction kws arbitrary: s)
  case Nil
  then show ?case by simp
next
  case (Cons kw kws)
  show ?case
  proof (cases "bind_kwarg compare self kw s")
    case (Inl err)
    then show ?thesis using Cons.prems by simp
  next
    case (Inr s1)
    then have "bind_kwargs compare self kws s1 = (e, s')" using Cons.prems by simp
    from Cons.IH [OF this] show ?thesis
      by (simp add: bind_kwarg_self_ports [OF Inr])
  qed
qed

lemma bind_kwargs_other_ports:
  assumes "bind_kwargs compare self kws s = (e, s')" and "q \<notin> fst ` set kws"
  shows "bound_input_modules (graphs s' g) q = bound_input_modules (graphs s g) q"
  using assms
proof (induction kws arbitrary: s)
  case Nil
  then show ?case by simp
next
  case (Cons kw kws)
  show ?case
  proof (cases "bind_kwarg compare self kw s")
    case (Inl err)
    then show ?thesis using Cons.prems by simp
  next
    case (Inr s1)
    then have "bind_kwargs compare self kws s1 = (e, s')" using Cons.prems by simp
    from Cons.IH [OF this] Cons.prems(2) show ?thesis
      by (simp add: bind_kwarg_other_ports(2) [OF Inr])
  qed
qed

lemma bind_kwargs_bound_module:
  assumes "bind_kwargs compare self kws s = (e, s')"
    and "bound_input_modules (graphs s g) q \<noteq> None"
  shows "bound_input_modules (graphs s' g) q \<noteq> None"
  using assms
proof (induction kws arbitrary: s)
  case Nil
  then show ?case by simp
next
  case (Cons kw kws)
  show ?case
  proof (cases "bind_kwarg compare self kw s")
    case (Inl err)
    then show ?thesis using Cons.prems by simp
  next
    case (Inr s1)
    then have "bind_kwargs compare self kws s1 = (e, s')" using Cons.prems by simp
    from Cons.IH [OF this bind_kwarg_bound_module [OF Inr Cons.prems(2)]] show ?thesis .
  qed
qed


lemma bind_kwargs_tensor_fields:
  assumes "bind_kwargs compare self kws s = (e, s')"
  shows "producer (tensors s' x) = producer (tensors s x)
     \<and> ntype (tensors s' x) = ntype (tensors s x)
     \<and> (\<exists>rest. consumers (tensors s' x) = consumers (tensors s x) @ rest)
     \<and> (q \<notin> fst ` set kws \<longrightarrow> producer_args (tensors s' x) q = producer_args (tensors s x) q)"
  using assms
proof (induction kws arbitrary: s)
  case Nil
  then show ?case by simp
next
  case (Cons kw kws)
  show ?case
  proof (cases "bind_kwarg compare self kw s")
    case (Inl err)
    then show ?thesis using Cons.prems by simp
  next
    case (Inr s1)
    then have "bind_kwargs compare self kws s1 = (e, s')" using Cons.prems by simp
    from Cons.IH [OF this] show ?thesis
      using bind_kwarg_tensor_fields(3) [OF Inr, of x]
      by (auto simp: bind_kwarg_tensor_fields(1,2,4) [OF Inr])
  qed
qed

lemma bind_kwargs_not_TypeError:
  "bind_kwargs compare self kws s = (e, s') \<Longrightarrow> e \<noteq> Some (TypeError a b)"
  by (induction kws arbitrary: s) (auto split: sum.splits simp: bind_kwarg_not_TypeError)

subsection \<open>The call\<close>

lemma call_results_not_TypeError: "call_results v g \<noteq> Inl (TypeError a b)"
  by (auto simp: call_results_def split: list.splits)

lemma mode_check_None:
  "(mode_check inner outer = (None :: 'nt error option)) \<longleftrightarrow> (inner = both \<or> inner = outer)"
  by (cases inner; cases outer) (simp_all add: mode_check_def)

lemma mode_check_Some:
  "mode_check inner outer = Some (e :: 'nt error) \<Longrightarrow> e = TypeError inner outer"
  by (cases inner; cases outer) (auto simp: mode_check_def)

lemma call_reached:
  assumes "active_graph s = Some outer"
    and "mode_check (operation_mode (graphs s self)) (operation_mode (graphs s outer)) = (None :: 'nt error option)"
    and "replay self outer 0 s = Some s1"
  shows "call compare v self kwargs s =
     (case bind_kwargs compare self kwargs s1 of
        (Some e, s2) \<Rightarrow> Some (Inl (e :: 'nt error), s2)
      | (None, s2) \<Rightarrow> Some (call_results v (graphs s2 self), s2))"
  using assms by (simp add: call_def)

lemma call_refused:
  assumes "active_graph s = Some outer"
    and "mode_check (operation_mode (graphs s self)) (operation_mode (graphs s outer)) = Some (e :: 'nt error)"
  shows "call compare v self kwargs s = Some (Inl e, s)"
  using assms by (simp add: call_def)


lemma ex_modes [simp]:
  "operation_mode (graphs (example_app i u a) 0) = i"
  "operation_mode (graphs (example_app i u a) (Suc 0)) = u"
  "active_graph (example_app i u a) = a"
  by (simp_all add: example_app_def example_graph_def bind_input_def record_step_def init_graph_def)

lemmas ex_defs = example_app_def example_graph_def example_compare_def example_valid_names_def
        example_valid_name_def isidentifier_def identifier_char_def identifier_start_def
        python_keywords_def example_two_outputs_def
        bind_input_def record_step_def record_step_in_def init_graph_def

lemmas call_defs = call_def mode_check_def replay.simps bind_kwarg_def call_results_def
        update_output_def add_consumer_def interface_name_def

lemma example_self_call:
  "call example_compare v 0 kwargs (example_app m m (Some 0)) = None"
proof -
  have "replay 0 0 0 (example_app m m (Some 0)) = None"
    by (rule replay_self_None) (simp add: ex_defs)
  moreover have "mode_check m m = (None :: nat error option)"
    by (simp add: mode_check_None)
  ultimately show ?thesis by (simp add: call_def)
qed

subsection \<open>The mode check\<close>

text \<open>
  C1. While an outer graph is active, the call of a graph fails with the error of the
  mode check (the \<^verbatim>\<open>TypeError\<close> that names the two modes, the spec's ModeIncompatibility) if
  and only if the mode of the graph is training or inference and differs from the mode of
  the outer graph; the store is then left as it was. A graph of mode both is never
  refused, whatever the mode of the outer graph. In particular, a training graph called
  in an inference graph always fails with that error, and a both graph called in a both
  graph never does.
\<close>

theorem call_mode_error:
  fixes compare :: "'nt \<Rightarrow> 'nt \<Rightarrow> NeuralTypeComparisonResult"
  assumes "active_graph s = Some outer"
  shows "((\<exists>a b s'. call compare v self kwargs s = Some (Inl (TypeError a b), s'))
          \<longleftrightarrow> operation_mode (graphs s self) \<noteq> both
              \<and> operation_mode (graphs s self) \<noteq> operation_mode (graphs s outer))
       \<and> (operation_mode (graphs s self) \<noteq> both
              \<and> operation_mode (graphs s self) \<noteq> operation_mode (graphs s outer)
          \<longrightarrow> call compare v self kwargs s
              = Some (Inl (TypeError (operation_mode (graphs s self)) (operation_mode (graphs s outer))), s))"
proof (cases "mode_check (operation_mode (graphs s self)) (operation_mode (graphs s outer)) :: 'nt error option")
  case None
  then have ok: "operation_mode (graphs s self) = both
      \<or> operation_mode (graphs s self) = operation_mode (graphs s outer)"
    by (simp add: mode_check_None)
  have "call compare v self kwargs s \<noteq> Some (Inl (TypeError a b), s')" for a b s'
  proof (cases "replay self outer 0 s")
    case None
    then show ?thesis using assms \<open>mode_check _ _ = None\<close> by (simp add: call_def)
  next
    case (Some s1)
    obtain e s2 where b: "bind_kwargs compare self kwargs s1 = (e, s2)" by (cases "bind_kwargs compare self kwargs s1")
    show ?thesis
      using bind_kwargs_not_TypeError [OF b, of a b] call_results_not_TypeError [of v "graphs s2 self" a b]
      by (cases e) (simp_all add: call_reached [OF assms \<open>mode_check _ _ = None\<close> Some] b)
  qed
  then show ?thesis using ok by blast
next
  case (Some e)
  then have e: "e = TypeError (operation_mode (graphs s self)) (operation_mode (graphs s outer))"
    by (rule mode_check_Some)
  have "\<not> (operation_mode (graphs s self) = both
      \<or> operation_mode (graphs s self) = operation_mode (graphs s outer))"
    using Some mode_check_None [where ?'nt = 'nt, of "operation_mode (graphs s self)" "operation_mode (graphs s outer)"]
    by auto
  then show ?thesis using call_refused [OF assms Some] e by auto
qed

theorem call_mode_error_witness:
  "active_graph (example_app training inference (Some 1)) = Some 1
   \<and> call example_compare example_valid_names 0 [] (example_app training inference (Some 1))
       = Some (Inl (TypeError training inference), example_app training inference (Some 1))
   \<and> active_graph (example_app both both (Some 1)) = Some 1
   \<and> \<not> (\<exists>a b s'. call example_compare example_valid_names 0 [] (example_app both both (Some 1))
       = Some (Inl (TypeError a b), s'))"
  using call_mode_error [of "example_app training inference (Some 1)" 1 example_compare example_valid_names 0 "[]"]
    call_mode_error [of "example_app both both (Some 1)" 1 example_compare example_valid_names 0 "[]"]
  by simp

text \<open>
  The claim as it was first stated, that the call fails with that error exactly when the
  two modes differ and that both in both always succeeds, does not hold: a graph of mode
  both called in a training graph returns its output; and a both graph called in a both
  graph still fails on an unknown keyword.
\<close>

theorem call_mode_counterexample:
  "active_graph (example_app both training (Some 1)) = Some 1
   \<and> operation_mode (graphs (example_app both training (Some 1)) 0)
       \<noteq> operation_mode (graphs (example_app both training (Some 1)) 1)
   \<and> map_option fst (call example_compare example_valid_names 0 [] (example_app both training (Some 1)))
       = Some (Inr (Tensor 1))
   \<and> map_option fst (call example_compare example_valid_names 0 [(''z'', KTensor 0)]
                 (example_app both both (Some 1)))
       = Some (Inl (NeuralPortNameMismatchError ''z''))"
  by (simp add: call_defs ex_defs)

subsection \<open>An unknown keyword\<close>

text \<open>
  C2. In a call that gets as far as a keyword whose name is not a declared input port (an
  outer graph is active, the mode check passes, the replay of the steps ends, and the
  keyword arguments before it are bound without error), the call fails with
  \<^verbatim>\<open>NeuralPortNameMismatchError\<close> for that name, in the store the earlier arguments left, and
  the recorded steps of the called graph are the ones it had before the call.
\<close>

theorem call_unknown_keyword:
  fixes compare :: "'nt \<Rightarrow> 'nt \<Rightarrow> NeuralTypeComparisonResult"
  assumes "active_graph s = Some outer"
    and "mode_check (operation_mode (graphs s self)) (operation_mode (graphs s outer)) = (None :: 'nt error option)"
    and "replay self outer 0 s = Some s1"
    and "bind_kwargs compare self pre s1 = (None, s2)"
    and "bound_input_ports (graphs s self) input_port_name = None"
  shows "call compare v self (pre @ (input_port_name, input_object) # post) s
           = Some (Inl (NeuralPortNameMismatchError input_port_name), s2)
       \<and> steps (graphs s2 self) = steps (graphs s self)"
proof -
  have "bound_input_ports (graphs s2 self) input_port_name = None"
    using assms(5) bind_kwargs_self_ports [OF assms(4)] replay_fields(5) [OF assms(3), of self]
    by simp
  then have "bind_kwarg compare self (input_port_name, input_object) s2
      = Inl (NeuralPortNameMismatchError input_port_name)"
    by (simp add: bind_kwarg_def)
  then have "bind_kwargs compare self (pre @ (input_port_name, input_object) # post) s1
      = (Some (NeuralPortNameMismatchError input_port_name), s2)"
    by (simp add: bind_kwargs_append [OF assms(4)])
  moreover have "steps (graphs s2 self) = steps (graphs s self)"
    using bind_kwargs_graph_fields [OF assms(4), of self] replay_Some_steps [OF assms(3)] by simp
  ultimately show ?thesis
    by (simp add: call_reached [OF assms(1,2,3)])
qed

theorem call_unknown_keyword_witness:
  "call example_compare example_valid_names 0 [(''x'', KTensor 0), (''z'', KTensor 0)] (example_app both both (Some 1))
     = Some (Inl (NeuralPortNameMismatchError ''z''),
             snd (bind_kwargs example_compare 0 [(''x'', KTensor 0)]
                    (the (replay 0 1 0 (example_app both both (Some 1))))))
   \<and> steps (graphs (snd (bind_kwargs example_compare 0 [(''x'', KTensor 0)]
                    (the (replay 0 1 0 (example_app both both (Some 1)))))) 0)
     = steps (graphs (example_app both both (Some 1)) 0)"
proof -
  let ?s = "example_app both both (Some 1)"
  have r: "replay 0 1 0 ?s = Some (the (replay 0 1 0 ?s))"
    by (simp add: replay.simps ex_defs)
  have b: "bind_kwargs example_compare 0 [(''x'', KTensor 0)] (the (replay 0 1 0 ?s))
       = (None, snd (bind_kwargs example_compare 0 [(''x'', KTensor 0)] (the (replay 0 1 0 ?s))))"
    by (simp add: replay.simps ex_defs bind_kwarg_def)
  have p: "bound_input_ports (graphs ?s 0) ''z'' = None"
    by (simp add: ex_defs)
  have m: "mode_check (operation_mode (graphs ?s 0)) (operation_mode (graphs ?s 1)) = (None :: nat error option)"
    by (simp add: mode_check_def)
  show ?thesis
    using call_unknown_keyword [OF _ m r b p, of example_valid_names "KTensor 0" "[]"] by simp
qed

text \<open>
  Without those conditions a call with an unknown keyword ends otherwise: with the error
  of the mode check, with the type mismatch of an earlier argument, with \<^verbatim>\<open>AttributeError\<close>
  when no graph is active, or not at all when the graph is replayed into itself.
\<close>

theorem call_unknown_keyword_counterexample:
  "bound_input_ports (graphs (example_app training inference (Some 1)) 0) ''z'' = None
   \<and> call example_compare example_valid_names 0 [(''z'', KTensor 0)] (example_app training inference (Some 1))
       = Some (Inl (TypeError training inference), example_app training inference (Some 1))
   \<and> bound_input_ports (graphs (example_app both both (Some 1)) 0) ''z'' = None
   \<and> map_option fst (call example_compare example_valid_names 0 [(''x'', KTensor 2), (''z'', KTensor 0)]
                 (example_app both both (Some 1)))
       = Some (Inl (NeuralPortNmTensorMismatchError ''x'' 0 7 INCOMPATIBLE))
   \<and> call example_compare example_valid_names 0 [(''z'', KTensor 0)] (example_app both both None)
       = Some (Inl AttributeError, example_app both both None)
   \<and> call example_compare example_valid_names 0 [(''z'', KTensor 0)] (example_app both both (Some 0))
       = None"
proof -
  have "bound_input_ports (graphs (example_app training inference (Some 1)) 0) ''z'' = None
   \<and> call example_compare example_valid_names 0 [(''z'', KTensor 0)] (example_app training inference (Some 1))
       = Some (Inl (TypeError training inference), example_app training inference (Some 1))
   \<and> bound_input_ports (graphs (example_app both both (Some 1)) 0) ''z'' = None
   \<and> map_option fst (call example_compare example_valid_names 0 [(''x'', KTensor 2), (''z'', KTensor 0)]
                 (example_app both both (Some 1)))
       = Some (Inl (NeuralPortNmTensorMismatchError ''x'' 0 7 INCOMPATIBLE))
   \<and> call example_compare example_valid_names 0 [(''z'', KTensor 0)] (example_app both both None)
       = Some (Inl AttributeError, example_app both both None)"
    by (simp add: call_defs ex_defs)
  then show ?thesis
    using example_self_call [of example_valid_names "[(''z'', KTensor 0)]" both] by blast
qed

subsection \<open>Binding a tensor\<close>

text \<open>
  C3. In a call that gets as far as a tensor passed for the bound input port \<open>p\<close> (an outer
  graph is active, the mode check passes, the replay of the steps ends, and the keyword
  arguments before it are bound without error), with the keywords distinct as in a Python
  dict, and where the comparison of the port definition with the tensor yields \<open>SAME\<close> or
  \<open>GREATER\<close>: the call ends; the pair of the bound module of \<open>p\<close> and \<open>p\<close> is appended to the
  consumers the tensor had when the argument was reached (later arguments of the same
  call may append more); and every tensor of the bound outputs whose producer has the
  name of the bound module, in particular every one whose producer is the bound module,
  has the supplied tensor as its \<open>producer_args\<close> entry for \<open>p\<close> after the call.
\<close>

theorem call_tensor_binding:
  fixes compare :: "'nt \<Rightarrow> 'nt \<Rightarrow> NeuralTypeComparisonResult"
  assumes "active_graph s = Some outer"
    and "mode_check (operation_mode (graphs s self)) (operation_mode (graphs s outer)) = (None :: 'nt error option)"
    and "replay self outer 0 s = Some s1"
    and "bind_kwargs compare self pre s1 = (None, s2)"
    and "distinct (map fst (pre @ (p, KTensor t) # post))"
    and "bound_input_ports (graphs s self) p = Some d"
    and "bound_input_modules (graphs s self) p = Some bm"
    and "compare d (ntype (tensors s t)) = SAME \<or> compare d (ntype (tensors s t)) = GREATER"
  shows "\<exists>r s' rest. call compare v self (pre @ (p, KTensor t) # post) s = Some (r, s')
       \<and> consumers (tensors s' t) = consumers (tensors s2 t) @ (bm, p) # rest
       \<and> (\<forall>out \<in> snd ` set (bound_outputs (graphs s self)).
            name (producer (tensors s out)) = interface_name s bm
            \<longrightarrow> producer_args (tensors s' out) p = Some t)
       \<and> (\<forall>out \<in> snd ` set (bound_outputs (graphs s self)).
            IModule (producer (tensors s out)) = bm
            \<longrightarrow> producer_args (tensors s' out) p = Some t)"
proof -
  have npre: "p \<notin> fst ` set pre" and npost: "p \<notin> fst ` set post"
    using assms(5) by auto
  have d: "bound_input_ports (graphs s2 self) p = Some d"
    using assms(6) bind_kwargs_self_ports [OF assms(4)] replay_fields(5) [OF assms(3), of self]
    by simp
  have ty: "ntype (tensors s2 t) = ntype (tensors s t)"
    using bind_kwargs_tensor_fields [OF assms(4), of t] replay_fields(1) [OF assms(3)] by simp
  have bm: "bound_input_modules (graphs s2 self) p = Some bm"
    using assms(7) bind_kwargs_other_ports [OF assms(4) npre, of self]
      replay_fields(7) [OF assms(3), of self] by simp
  have outs: "bound_outputs (graphs s2 self) = bound_outputs (graphs s self)"
    using bind_kwargs_graph_fields [OF assms(4), of self] replay_fields(8) [OF assms(3), of self] by simp
  have pr: "producer (tensors s2 x) = producer (tensors s x)" for x
    using bind_kwargs_tensor_fields [OF assms(4), of x] replay_fields(1) [OF assms(3)] by simp
  have nm: "interface_name s2 bm = interface_name s bm"
    using bind_kwargs_graph_fields [OF assms(4)] replay_fields(3) [OF assms(3)]
    by (intro interface_name_cong) simp
  define s3 where "s3 = s2\<lparr>tensors := fold (update_output (interface_name s2 bm) p t)
                         (map snd (bound_outputs (graphs s2 self)))
                         ((tensors s2)(t := add_consumer bm p (tensors s2 t)))\<rparr>"
  have step: "bind_kwarg compare self (p, KTensor t) s2 = Inr s3"
    unfolding s3_def using assms(8) ty by (intro bind_kwarg_tensor [OF d _ bm]) simp
  have c3: "consumers (tensors s3 t) = consumers (tensors s2 t) @ [(bm, p)]"
    by (simp add: s3_def fold_update_output add_consumer_def)
  have a3: "producer_args (tensors s3 out) p = Some t"
    if "out \<in> snd ` set (bound_outputs (graphs s self))" "name (producer (tensors s out)) = interface_name s bm"
    for out
    using that by (auto simp: s3_def fold_update_output add_consumer_def outs nm pr [symmetric])
  obtain e s' where b: "bind_kwargs compare self post s3 = (e, s')"
    by (cases "bind_kwargs compare self post s3")
  have all: "bind_kwargs compare self (pre @ (p, KTensor t) # post) s1 = (e, s')"
    by (simp add: bind_kwargs_append [OF assms(4)] step b)
  have c: "\<exists>r. call compare v self (pre @ (p, KTensor t) # post) s = Some (r, s')"
    by (cases e) (simp_all add: call_reached [OF assms(1,2,3)] all)
  obtain rest where "consumers (tensors s' t) = consumers (tensors s3 t) @ rest"
    using bind_kwargs_tensor_fields [OF b, of t] by auto
  then have cs: "consumers (tensors s' t) = consumers (tensors s2 t) @ (bm, p) # rest"
    by (simp add: c3)
  have args: "producer_args (tensors s' out) p = producer_args (tensors s3 out) p" for out
    using bind_kwargs_tensor_fields [OF b, of out p] npost by simp
  have same: "name (producer (tensors s out)) = interface_name s bm"
    if "IModule (producer (tensors s out)) = bm" for out
    using that by (auto simp: interface_name_def)
  show ?thesis
    using c cs a3 args same by (metis (no_types, lifting))
qed

theorem call_tensor_binding_witness:
  "consumers (tensors (snd (the (call example_compare example_valid_names 0 [(''x'', KTensor 0)]
        (example_app both both (Some 1))))) 0) = [(IModule (Module ''tm''), ''x'')]
   \<and> producer_args (tensors (snd (the (call example_compare example_valid_names 0 [(''x'', KTensor 0)]
        (example_app both both (Some 1))))) 1) ''x'' = Some 0"
proof -
  let ?s = "example_app both both (Some 1)"
  have a: "active_graph ?s = Some 1" by simp
  have m: "mode_check (operation_mode (graphs ?s 0)) (operation_mode (graphs ?s 1)) = (None :: nat error option)"
    by (simp add: mode_check_def)
  have r: "replay 0 1 0 ?s = Some (the (replay 0 1 0 ?s))"
    by (simp add: replay.simps ex_defs)
  have b: "bind_kwargs example_compare 0 [] (the (replay 0 1 0 ?s)) = (None, the (replay 0 1 0 ?s))"
    by simp
  have dk: "distinct (map fst ([] @ (''x'', KTensor 0) # []))" by simp
  have p: "bound_input_ports (graphs ?s 0) ''x'' = Some 0" by (simp add: ex_defs)
  have bm: "bound_input_modules (graphs ?s 0) ''x'' = Some (IModule (Module ''tm''))" by (simp add: ex_defs)
  have t0: "example_compare 0 (ntype (tensors ?s 0)) = SAME \<or> example_compare 0 (ntype (tensors ?s 0)) = GREATER"
    by (simp add: ex_defs)
  have c0: "consumers (tensors (the (replay 0 1 0 ?s)) 0) = []"
    by (simp add: replay.simps ex_defs)
  have o: "1 \<in> snd ` set (bound_outputs (graphs ?s 0))"
     "name (producer (tensors ?s 1)) = interface_name ?s (IModule (Module ''tm''))"
    by (simp_all add: ex_defs interface_name_def)
  have len: "length (consumers (tensors (snd (the (call example_compare example_valid_names 0 [(''x'', KTensor 0)] ?s))) 0)) = 1"
    by (simp add: call_defs ex_defs)
  from call_tensor_binding [OF a m r b dk p bm t0, of example_valid_names]
  obtain res s' rest where c: "call example_compare example_valid_names 0 [(''x'', KTensor 0)] ?s = Some (res, s')"
    and cs: "consumers (tensors s' 0) = consumers (tensors (the (replay 0 1 0 ?s)) 0) @ (IModule (Module ''tm''), ''x'') # rest"
    and pa: "\<forall>out \<in> snd ` set (bound_outputs (graphs ?s 0)).
            name (producer (tensors ?s out)) = interface_name ?s (IModule (Module ''tm''))
            \<longrightarrow> producer_args (tensors s' out) ''x'' = Some 0"
    by auto
  from len have "length (consumers (tensors s' 0)) = 1" unfolding c by simp
  then have "rest = []" using cs c0 by simp
  then have "consumers (tensors s' 0) = [(IModule (Module ''tm''), ''x'')]"
      "producer_args (tensors s' 1) ''x'' = Some 0"
    using cs c0 pa o by auto
  then show ?thesis unfolding c by simp
qed

text \<open>
  Without those conditions nothing is appended and nothing replaced: the comparison
  yields \<open>SAME\<close>, but the mode check refuses the call before any argument is looked at, and
  the store is left as it was; or an unknown keyword before the tensor ends the call.
\<close>

theorem call_tensor_binding_counterexample:
  "bound_input_ports (graphs (example_app training inference (Some 1)) 0) ''x'' = Some 0
   \<and> bound_input_modules (graphs (example_app training inference (Some 1)) 0) ''x''
       = Some (IModule (Module ''tm''))
   \<and> example_compare 0 (ntype (tensors (example_app training inference (Some 1)) 0)) = SAME
   \<and> bound_outputs (graphs (example_app training inference (Some 1)) 0) = [(''y_pred'', 1)]
   \<and> producer (tensors (example_app training inference (Some 1)) 1) = Module ''tm''
   \<and> snd (the (call example_compare example_valid_names 0 [(''x'', KTensor 0)]
                 (example_app training inference (Some 1))))
       = example_app training inference (Some 1)
   \<and> consumers (tensors (example_app training inference (Some 1)) 0) = []
   \<and> producer_args (tensors (example_app training inference (Some 1)) 1) ''x'' = None
   \<and> map_option fst (call example_compare example_valid_names 0
                        [(''z'', KTensor 0), (''x'', KTensor 0)] (example_app both both (Some 1)))
       = Some (Inl (NeuralPortNameMismatchError ''z''))
   \<and> consumers (tensors (snd (the (call example_compare example_valid_names 0
                        [(''z'', KTensor 0), (''x'', KTensor 0)] (example_app both both (Some 1))))) 0)
       = []"
  by (simp add: call_defs ex_defs)

text \<open>
  C4. In a call that gets as far as a tensor passed for a declared input port \<open>p\<close> that has
  a bound module (an outer graph is active, the mode check passes, the replay of the steps
  ends, and the keyword arguments before it are bound without error): the binding is
  accepted if and only if the comparison of the port definition with the type of the
  tensor yields \<open>SAME\<close> or \<open>GREATER\<close>; with any other result the call fails with
  \<^verbatim>\<open>NeuralPortNmTensorMismatchError\<close>, which carries the port name, both types and the result
  of the comparison, in the store the earlier arguments left.
\<close>

theorem call_tensor_type_check:
  fixes compare :: "'nt \<Rightarrow> 'nt \<Rightarrow> NeuralTypeComparisonResult"
  assumes "active_graph s = Some outer"
    and "mode_check (operation_mode (graphs s self)) (operation_mode (graphs s outer)) = (None :: 'nt error option)"
    and "replay self outer 0 s = Some s1"
    and "bind_kwargs compare self pre s1 = (None, s2)"
    and "bound_input_ports (graphs s self) p = Some d"
    and "bound_input_modules (graphs s self) p \<noteq> None"
  shows "((\<exists>s3. bind_kwarg compare self (p, KTensor t) s2 = Inr s3)
           \<longleftrightarrow> compare d (ntype (tensors s t)) = SAME \<or> compare d (ntype (tensors s t)) = GREATER)
       \<and> (compare d (ntype (tensors s t)) \<noteq> SAME \<and> compare d (ntype (tensors s t)) \<noteq> GREATER
           \<longrightarrow> call compare v self (pre @ (p, KTensor t) # post) s
               = Some (Inl (NeuralPortNmTensorMismatchError p d (ntype (tensors s t))
                             (compare d (ntype (tensors s t)))), s2))"
proof -
  have d: "bound_input_ports (graphs s2 self) p = Some d"
    using assms(5) bind_kwargs_self_ports [OF assms(4)] replay_fields(5) [OF assms(3), of self]
    by simp
  have ty: "ntype (tensors s2 t) = ntype (tensors s t)"
    using bind_kwargs_tensor_fields [OF assms(4), of t] replay_fields(1) [OF assms(3)] by simp
  have "bound_input_modules (graphs s1 self) p \<noteq> None"
    using assms(6) replay_fields(7) [OF assms(3), of self] by simp
  then obtain bm where bm: "bound_input_modules (graphs s2 self) p = Some bm"
    using bind_kwargs_bound_module [OF assms(4), of self p] by auto
  show ?thesis
  proof (cases "compare d (ntype (tensors s t)) = SAME \<or> compare d (ntype (tensors s t)) = GREATER")
    case True
    then show ?thesis
      using bind_kwarg_tensor [OF d _ bm, of compare t] ty by auto
  next
    case False
    then have r: "bind_kwarg compare self (p, KTensor t) s2
        = Inl (NeuralPortNmTensorMismatchError p d (ntype (tensors s t)) (compare d (ntype (tensors s t))))"
      using bind_kwarg_tensor_refused [OF d, of compare t] ty by simp
    then have "bind_kwargs compare self (pre @ (p, KTensor t) # post) s1
        = (Some (NeuralPortNmTensorMismatchError p d (ntype (tensors s t)) (compare d (ntype (tensors s t)))), s2)"
      by (simp add: bind_kwargs_append [OF assms(4)])
    then show ?thesis
      using False r by (simp add: call_reached [OF assms(1,2,3)])
  qed
qed

theorem call_tensor_type_check_witness:
  "example_compare 0 (ntype (tensors (example_app both both (Some 1)) 0)) = SAME
   \<and> \<not> isl (bind_kwarg example_compare 0 (''x'', KTensor 0) (the (replay 0 1 0 (example_app both both (Some 1)))))
   \<and> example_compare 0 (ntype (tensors (example_app both both (Some 1)) 2)) = INCOMPATIBLE
   \<and> isl (bind_kwarg example_compare 0 (''x'', KTensor 2) (the (replay 0 1 0 (example_app both both (Some 1)))))
   \<and> call example_compare example_valid_names 0 [(''x'', KTensor 2)] (example_app both both (Some 1))
       = Some (Inl (NeuralPortNmTensorMismatchError ''x'' 0 7 INCOMPATIBLE),
               the (replay 0 1 0 (example_app both both (Some 1))))"
proof -
  let ?s = "example_app both both (Some 1)"
  have a: "active_graph ?s = Some 1" by simp
  have m: "mode_check (operation_mode (graphs ?s 0)) (operation_mode (graphs ?s 1)) = (None :: nat error option)"
    by (simp add: mode_check_def)
  have r: "replay 0 1 0 ?s = Some (the (replay 0 1 0 ?s))"
    by (simp add: replay.simps ex_defs)
  have b: "bind_kwargs example_compare 0 [] (the (replay 0 1 0 ?s)) = (None, the (replay 0 1 0 ?s))"
    by simp
  have p: "bound_input_ports (graphs ?s 0) ''x'' = Some 0" by (simp add: ex_defs)
  have bm: "bound_input_modules (graphs ?s 0) ''x'' \<noteq> None" by (simp add: ex_defs)
  have t0: "example_compare 0 (ntype (tensors ?s 0)) = SAME" by (simp add: ex_defs)
  have t2: "example_compare 0 (ntype (tensors ?s 2)) = INCOMPATIBLE" "ntype (tensors ?s 2) = 7"
    by (simp_all add: ex_defs)
  have isl_iff: "(\<exists>x. f = Inr x) \<longleftrightarrow> \<not> isl f" for f :: "nat error + (nat, nat) app"
    by (cases f) auto
  have acc: "\<not> isl (bind_kwarg example_compare 0 (''x'', KTensor 0) (the (replay 0 1 0 ?s)))"
    using call_tensor_type_check [OF a m r b p bm, of 0 example_valid_names "[]"] t0
    unfolding isl_iff by blast
  have ref: "isl (bind_kwarg example_compare 0 (''x'', KTensor 2) (the (replay 0 1 0 ?s)))"
    using call_tensor_type_check [OF a m r b p bm, of 2 example_valid_names "[]"] t2(1)
    unfolding isl_iff by simp
  have err: "call example_compare example_valid_names 0 [(''x'', KTensor 2)] ?s
       = Some (Inl (NeuralPortNmTensorMismatchError ''x'' 0 7 INCOMPATIBLE), the (replay 0 1 0 ?s))"
    using call_tensor_type_check [OF a m r b p bm, of 2 example_valid_names "[]"] t2
    by simp
  show ?thesis
    using t0 t2(1) acc ref err by blast
qed

text \<open>
  Without those conditions a tensor of another type does not make the call fail with
  that error: the mode check fails first, or the unknown keyword before it does.
\<close>

theorem call_tensor_type_check_counterexample:
  "bound_input_ports (graphs (example_app training inference (Some 1)) 0) ''x'' = Some 0
   \<and> example_compare 0 (ntype (tensors (example_app training inference (Some 1)) 2)) = INCOMPATIBLE
   \<and> call example_compare example_valid_names 0 [(''x'', KTensor 2)] (example_app training inference (Some 1))
       = Some (Inl (TypeError training inference), example_app training inference (Some 1))
   \<and> map_option fst (call example_compare example_valid_names 0 [(''z'', KTensor 0), (''x'', KTensor 2)]
                 (example_app both both (Some 1)))
       = Some (Inl (NeuralPortNameMismatchError ''z''))"
  by (simp add: call_defs ex_defs)




subsection \<open>The value returned\<close>

lemma call_results_cases:
  "call_results v g =
     (if length (bound_outputs g) = 1 then Inr (Tensor (snd (hd (bound_outputs g))))
      else if v (map fst (bound_outputs g))
      then Inr (NamedTuple ''NeuralGraphOutput'' (bound_outputs g))
      else Inl ValueError)"
proof (cases "bound_outputs g")
  case Nil
  then show ?thesis by (simp add: call_results_def)
next
  case (Cons out outs)
  then show ?thesis
    by (cases outs) (simp_all add: call_results_def zip_map_fst_snd)
qed

text \<open>
  C6. When a call returns a value, the value is the single bound output tensor if the
  graph has exactly one bound output, and otherwise the named tuple whose fields are the
  bound outputs, each under its name, in the order of the output bindings; the call
  leaves the output bindings as they were. And the call does return that value: when an
  outer graph is active, the mode check passes, the replay of the steps ends and the
  keyword arguments are bound without error, it returns the single output, or, for any
  other number of outputs, the named tuple of all of them, provided \<^verbatim>\<open>namedtuple\<close> accepts
  their names; it raises \<^verbatim>\<open>ValueError\<close> when \<^verbatim>\<open>namedtuple\<close> refuses them.
\<close>

theorem call_result_outputs:
  fixes compare :: "'nt \<Rightarrow> 'nt \<Rightarrow> NeuralTypeComparisonResult"
  shows "(call compare v self kwargs s = Some (Inr res, s') \<longrightarrow>
            (length (bound_outputs (graphs s self)) = 1
               \<longrightarrow> res = Tensor (snd (hd (bound_outputs (graphs s self)))))
          \<and> (length (bound_outputs (graphs s self)) \<noteq> 1
               \<longrightarrow> res = NamedTuple ''NeuralGraphOutput'' (bound_outputs (graphs s self)))
          \<and> bound_outputs (graphs s' self) = bound_outputs (graphs s self))
       \<and> (active_graph s = Some outer
          \<and> mode_check (operation_mode (graphs s self)) (operation_mode (graphs s outer))
              = (None :: 'nt error option)
          \<and> replay self outer 0 s = Some s1
          \<and> bind_kwargs compare self kwargs s1 = (None, s2) \<longrightarrow>
            (length (bound_outputs (graphs s self)) = 1
               \<longrightarrow> call compare v self kwargs s
                   = Some (Inr (Tensor (snd (hd (bound_outputs (graphs s self))))), s2))
          \<and> (length (bound_outputs (graphs s self)) \<noteq> 1
               \<and> v (map fst (bound_outputs (graphs s self)))
               \<longrightarrow> call compare v self kwargs s
                   = Some (Inr (NamedTuple ''NeuralGraphOutput'' (bound_outputs (graphs s self))), s2))
          \<and> (length (bound_outputs (graphs s self)) \<noteq> 1
               \<and> \<not> v (map fst (bound_outputs (graphs s self)))
               \<longrightarrow> call compare v self kwargs s = Some (Inl ValueError, s2)))"
proof -
  have part1: "(length (bound_outputs (graphs s self)) = 1
               \<longrightarrow> res = Tensor (snd (hd (bound_outputs (graphs s self)))))
          \<and> (length (bound_outputs (graphs s self)) \<noteq> 1
               \<longrightarrow> res = NamedTuple ''NeuralGraphOutput'' (bound_outputs (graphs s self)))
          \<and> bound_outputs (graphs s' self) = bound_outputs (graphs s self)"
    if c: "call compare v self kwargs s = Some (Inr res, s')"
  proof -
    from c obtain outer s1 where r: "replay self outer 0 s = Some s1"
      and b: "bind_kwargs compare self kwargs s1 = (None, s')"
      and res: "call_results v (graphs s' self) = Inr res"
      by (auto simp: call_def split: option.splits prod.splits)
    have outs: "bound_outputs (graphs s' self) = bound_outputs (graphs s self)"
      using bind_kwargs_graph_fields [OF b, of self] replay_fields(8) [OF r, of self] by simp
    show ?thesis
      using res outs by (auto simp: call_results_cases split: if_splits)
  qed
  have part2: "call compare v self kwargs s
        = Some (call_results v (graphs s2 self), s2)
      \<and> bound_outputs (graphs s2 self) = bound_outputs (graphs s self)"
    if a: "active_graph s = Some outer"
      and m: "mode_check (operation_mode (graphs s self)) (operation_mode (graphs s outer))
              = (None :: 'nt error option)"
      and r: "replay self outer 0 s = Some s1"
      and b: "bind_kwargs compare self kwargs s1 = (None, s2)"
    using bind_kwargs_graph_fields [OF b, of self] replay_fields(8) [OF r, of self]
    by (simp add: call_reached [OF a m r] b)
  show ?thesis
    using part1 part2 by (auto simp: call_results_cases)
qed

theorem call_result_outputs_witness:
  "call example_compare example_valid_names 0 [(''x'', KTensor 0)] (example_app both both (Some 1))
     = Some (Inr (Tensor 1),
             snd (bind_kwargs example_compare 0 [(''x'', KTensor 0)]
                    (the (replay 0 1 0 (example_app both both (Some 1))))))
   \<and> bound_outputs (graphs (example_app both both (Some 1)) 0) = [(''y_pred'', 1)]
   \<and> call example_compare example_valid_names 0 [(''x'', KTensor 0)] example_two_outputs
     = Some (Inr (NamedTuple ''NeuralGraphOutput'' [(''y_pred'', 1), (''loss'', 2)]),
             snd (bind_kwargs example_compare 0 [(''x'', KTensor 0)]
                    (the (replay 0 1 0 example_two_outputs))))
   \<and> bound_outputs (graphs example_two_outputs 0) = [(''y_pred'', 1), (''loss'', 2)]
   \<and> example_valid_names [''y_pred'', ''loss'']
   \<and> call example_compare example_valid_names 1 [] (example_app both both (Some 1))
     = Some (Inr (NamedTuple ''NeuralGraphOutput'' []), example_app both both (Some 1))"
proof -
  let ?s = "example_app both both (Some 1)"
  let ?t = "example_two_outputs"
  let ?kw = "[(''x'', KTensor 0)]"
  have as: "active_graph ?s = Some 1" by simp
  have ms: "mode_check (operation_mode (graphs ?s 0)) (operation_mode (graphs ?s 1)) = (None :: nat error option)"
    by (simp add: mode_check_def)
  have rs: "replay 0 1 0 ?s = Some (the (replay 0 1 0 ?s))"
    by (simp add: replay.simps ex_defs)
  have bs: "bind_kwargs example_compare 0 ?kw (the (replay 0 1 0 ?s))
       = (None, snd (bind_kwargs example_compare 0 ?kw (the (replay 0 1 0 ?s))))"
    by (simp add: replay.simps ex_defs bind_kwarg_def)
  have os: "bound_outputs (graphs ?s 0) = [(''y_pred'', 1)]" by (simp add: ex_defs)
  have at: "active_graph ?t = Some 1" by (simp add: ex_defs)
  have mt: "mode_check (operation_mode (graphs ?t 0)) (operation_mode (graphs ?t 1)) = (None :: nat error option)"
    by (simp add: mode_check_def ex_defs)
  have rt: "replay 0 1 0 ?t = Some (the (replay 0 1 0 ?t))"
    by (simp add: replay.simps ex_defs)
  have bt: "bind_kwargs example_compare 0 ?kw (the (replay 0 1 0 ?t))
       = (None, snd (bind_kwargs example_compare 0 ?kw (the (replay 0 1 0 ?t))))"
    by (simp add: replay.simps ex_defs bind_kwarg_def)
  have ot: "bound_outputs (graphs ?t 0) = [(''y_pred'', 1), (''loss'', 2)]" by (simp add: ex_defs)
  have vt: "example_valid_names [''y_pred'', ''loss'']" by (simp add: ex_defs)
  have c1: "call example_compare example_valid_names 1 [] ?s
      = Some (Inr (NamedTuple ''NeuralGraphOutput'' []), ?s)"
    by (simp add: call_defs ex_defs)
  have ls: "length (bound_outputs (graphs ?s 0)) = 1" unfolding os by simp
  have lt: "length (bound_outputs (graphs ?t 0)) \<noteq> 1 \<and> example_valid_names (map fst (bound_outputs (graphs ?t 0)))"
    using vt unfolding ot by simp
  have "call example_compare example_valid_names 0 ?kw ?s
     = Some (Inr (Tensor (snd (hd (bound_outputs (graphs ?s 0))))),
             snd (bind_kwargs example_compare 0 ?kw (the (replay 0 1 0 ?s))))"
    using call_result_outputs [of example_compare example_valid_names 0 ?kw ?s _ _ 1
        "the (replay 0 1 0 ?s)" "snd (bind_kwargs example_compare 0 ?kw (the (replay 0 1 0 ?s)))"]
      as ms rs bs ls by blast
  then have cs: "call example_compare example_valid_names 0 ?kw ?s
     = Some (Inr (Tensor 1), snd (bind_kwargs example_compare 0 ?kw (the (replay 0 1 0 ?s))))"
    unfolding os by simp
  have "call example_compare example_valid_names 0 ?kw ?t
     = Some (Inr (NamedTuple ''NeuralGraphOutput'' (bound_outputs (graphs ?t 0))),
             snd (bind_kwargs example_compare 0 ?kw (the (replay 0 1 0 ?t))))"
    using call_result_outputs [of example_compare example_valid_names 0 ?kw ?t _ _ 1
        "the (replay 0 1 0 ?t)" "snd (bind_kwargs example_compare 0 ?kw (the (replay 0 1 0 ?t)))"]
      at mt rt bt lt by blast
  then have ct: "call example_compare example_valid_names 0 ?kw ?t
     = Some (Inr (NamedTuple ''NeuralGraphOutput'' [(''y_pred'', 1), (''loss'', 2)]),
             snd (bind_kwargs example_compare 0 ?kw (the (replay 0 1 0 ?t))))"
    unfolding ot by simp
  show ?thesis
    using cs ct os ot vt c1 by blast
qed

subsection \<open>The replay of the steps\<close>

text \<open>
  C7. While an outer graph is active and the mode check passes, the call of a graph ends
  (the outer graph is another graph than the called one; a graph without steps may also
  be its own outer graph), and in the store it leaves, whether it returned or raised on a
  keyword argument, the steps of the outer graph are its former steps followed by the
  steps of the called graph, in their order. So they contain the steps of the called
  graph as a subsequence; \<open>modules\<close> of the outer graph holds the module of every step of the
  called graph and is otherwise as before; and it contains \<open>modules\<close> of the called graph
  when that graph was built by \<open>record_step\<close>.
\<close>

theorem call_replays_steps:
  fixes compare :: "'nt \<Rightarrow> 'nt \<Rightarrow> NeuralTypeComparisonResult"
  assumes "active_graph s = Some outer"
    and "mode_check (operation_mode (graphs s self)) (operation_mode (graphs s outer)) = (None :: 'nt error option)"
    and "self \<noteq> outer \<or> steps (graphs s self) = []"
  shows "\<exists>r s'. call compare v self kwargs s = Some (r, s')
       \<and> steps (graphs s' outer) = steps (graphs s outer) @ steps (graphs s self)
       \<and> subseq (steps (graphs s self)) (steps (graphs s' outer))
       \<and> (\<forall>st \<in> set (steps (graphs s self)). modules (graphs s' outer) (name (fst st)) = Some (fst st))
       \<and> (\<forall>n. n \<notin> name ` fst ` set (steps (graphs s self))
              \<longrightarrow> modules (graphs s' outer) n = modules (graphs s outer) n)
       \<and> (modules_in_steps (graphs s self) \<longrightarrow> modules (graphs s self) \<subseteq>\<^sub>m modules (graphs s' outer))"
proof -
  have "\<exists>s1. replay self outer 0 s = Some s1"
  proof (cases "self = outer")
    case True
    then show ?thesis using assms(3) by (simp add: replay.simps)
  next
    case False
    then show ?thesis by (simp add: replay_other)
  qed
  then obtain s1 where r: "replay self outer 0 s = Some s1" ..
  have s1: "graphs s1 outer = fold (\<lambda>st. record_step (fst st) (snd st)) (steps (graphs s self)) (graphs s outer)"
    using replay_Some [OF r] by (simp add: replayed_def)
  obtain e s' where b: "bind_kwargs compare self kwargs s1 = (e, s')"
    by (cases "bind_kwargs compare self kwargs s1")
  have c: "\<exists>r. call compare v self kwargs s = Some (r, s')"
    by (cases e) (simp_all add: call_reached [OF assms(1,2) r] b)
  have st: "steps (graphs s' outer) = steps (graphs s outer) @ steps (graphs s self)"
    using bind_kwargs_graph_fields [OF b, of outer] by (simp add: s1 fold_record_step_steps)
  have md: "modules (graphs s' outer) n =
      (if n \<in> name ` fst ` set (steps (graphs s self)) then Some (Module n) else modules (graphs s outer) n)" for n
    using bind_kwargs_graph_fields [OF b, of outer] by (simp add: s1 fold_record_step_modules)
  have m1: "\<forall>st \<in> set (steps (graphs s self)). modules (graphs s' outer) (name (fst st)) = Some (fst st)"
    by (auto simp: md)
  have m2: "\<forall>n. n \<notin> name ` fst ` set (steps (graphs s self))
              \<longrightarrow> modules (graphs s' outer) n = modules (graphs s outer) n"
    by (simp add: md)
  have m3: "modules (graphs s self) \<subseteq>\<^sub>m modules (graphs s' outer)" if "modules_in_steps (graphs s self)"
    unfolding map_le_def
  proof
    fix n assume n: "n \<in> dom (modules (graphs s self))"
    then have "modules (graphs s self) n = Some (Module n)" "Module n \<in> fst ` set (steps (graphs s self))"
      using that by (auto simp: modules_in_steps_def)
    moreover from this(2) have "n \<in> name ` fst ` set (steps (graphs s self))"
      by (metis image_eqI module.sel)
    ultimately show "modules (graphs s self) n = modules (graphs s' outer) n"
      by (simp add: md)
  qed
  have sub: "subseq (steps (graphs s self)) (steps (graphs s' outer))"
    unfolding st by (rule subseq_drop_many) simp
  show ?thesis using c st sub m1 m2 m3 by blast
qed

theorem call_replays_steps_witness:
  "active_graph (example_app both both (Some 1)) = Some 1
   \<and> call example_compare example_valid_names 0 [] (example_app both both (Some 1)) \<noteq> None
   \<and> steps (graphs (snd (the (call example_compare example_valid_names 0 []
        (example_app both both (Some 1))))) 1) = [(Module ''tm'', 0)]
   \<and> modules (graphs (snd (the (call example_compare example_valid_names 0 []
        (example_app both both (Some 1))))) 1) ''tm'' = Some (Module ''tm'')
   \<and> modules (graphs (example_app both both (Some 1)) 0)
       \<subseteq>\<^sub>m modules (graphs (snd (the (call example_compare example_valid_names 0 []
        (example_app both both (Some 1))))) 1)"
proof -
  let ?s = "example_app both both (Some 1)"
  have m: "mode_check (operation_mode (graphs ?s 0)) (operation_mode (graphs ?s 1)) = (None :: nat error option)"
    by (simp add: mode_check_def)
  have a: "active_graph ?s = Some 1" by simp
  have d: "(0::nat) \<noteq> 1 \<or> steps (graphs ?s 0) = []" by simp
  have st: "steps (graphs ?s 0) = [(Module ''tm'', 0)]" "steps (graphs ?s 1) = []"
    by (simp_all add: ex_defs)
  have mis: "modules_in_steps (graphs ?s 0)"
    by (simp add: modules_in_steps_def ex_defs)
  from call_replays_steps [OF a m d, of example_compare example_valid_names "[]"]
  obtain r s' where c: "call example_compare example_valid_names 0 [] ?s = Some (r, s')"
    and s: "steps (graphs s' 1) = steps (graphs ?s 1) @ steps (graphs ?s 0)"
    and ms: "\<forall>st \<in> set (steps (graphs ?s 0)). modules (graphs s' 1) (name (fst st)) = Some (fst st)"
    and le: "modules_in_steps (graphs ?s 0) \<longrightarrow> modules (graphs ?s 0) \<subseteq>\<^sub>m modules (graphs s' 1)"
    by blast
  have "steps (graphs s' 1) = [(Module ''tm'', 0)]"
      "modules (graphs s' 1) ''tm'' = Some (Module ''tm'')"
      "modules (graphs ?s 0) \<subseteq>\<^sub>m modules (graphs s' 1)"
    using s ms le st mis by simp_all
  then show ?thesis unfolding c using a by simp
qed

subsection \<open>The singleton\<close>

lemma Singleton_call_known:
  "instances st cls = Some r \<Longrightarrow> Singleton_call new cls args st = Some (Inr r, st)"
  by (simp add: Singleton_call_def get_instance_def)

lemma Singleton_calls_known:
  "instances st cls = Some r \<Longrightarrow>
   Singleton_calls new cls argss st = Some (replicate (length argss) (Inr r), st)"
  by (induction argss) (simp_all add: Singleton_call_known)

text \<open>
  C9. From a state in which the lock is free, as it is at the start of the process and
  after every call, every sequence of calls of the accessor of a class returns, and each
  call yields the same instance as the first one, whatever its arguments. That instance
  stays in the table, and at most one object is created: by the first call, when the
  table had none for the class.
\<close>

theorem Singleton_same_instance:
  assumes "\<not> lock st"
  shows "\<exists>r st'. Singleton_calls new cls argss st = Some (replicate (length argss) (Inr r), st')
      \<and> \<not> lock st'
      \<and> (argss \<noteq> [] \<longrightarrow> instances st' cls = Some r)
      \<and> (instances st cls = None \<and> argss \<noteq> []
           \<longrightarrow> r = length (objects st) \<and> objects st' = objects st @ [new cls (hd argss)])
      \<and> (instances st cls \<noteq> None \<longrightarrow> st' = st)"
proof (cases argss)
  case Nil
  then show ?thesis using assms by simp
next
  case (Cons args rest)
  show ?thesis
  proof (cases "instances st cls")
    case None
    let ?st' = "st\<lparr>instances := (instances st)(cls \<mapsto> length (objects st)),
                   objects := objects st @ [new cls args], lock := False\<rparr>"
    have 1: "Singleton_call new cls args st = Some (Inr (length (objects st)), ?st')"
      using None assms by (simp add: Singleton_call_def get_instance_def)
    have "instances ?st' cls = Some (length (objects st))" by simp
    from Singleton_calls_known [OF this, of new rest]
    have "Singleton_calls new cls argss st
        = Some (replicate (length argss) (Inr (length (objects st))), ?st')"
      by (simp add: Cons 1)
    then show ?thesis using None Cons by simp
  next
    case (Some r)
    then show ?thesis using Singleton_calls_known [OF Some, of new argss] assms by simp
  qed
qed

theorem Singleton_same_instance_witness:
  "\<not> lock (Singleton_init :: (string, AppState) Singleton)
   \<and> map_option fst (Singleton_calls (\<lambda>cls. AppState_init) ''AppState'' [Some CPU, None, Some GPU]
                       Singleton_init)
       = Some [Inr 0, Inr 0, Inr 0]
   \<and> objects (snd (the (Singleton_calls (\<lambda>cls. AppState_init) ''AppState'' [Some CPU, None, Some GPU]
                          Singleton_init)))
       = [\<lparr>device = CPU\<rparr>]"
proof -
  have l: "\<not> lock (Singleton_init :: (string, AppState) Singleton)"
    by (simp add: Singleton_init_def)
  have i: "instances (Singleton_init :: (string, AppState) Singleton) ''AppState'' = None"
      "objects (Singleton_init :: (string, AppState) Singleton) = []"
    by (simp_all add: Singleton_init_def)
  let ?as = "[Some CPU, None, Some GPU]"
  from Singleton_same_instance [OF l, of "\<lambda>cls. AppState_init" "''AppState''" ?as]
  obtain r st' where c: "Singleton_calls (\<lambda>cls. AppState_init) ''AppState'' ?as Singleton_init
         = Some (replicate (length ?as) (Inr r), st')"
    and f: "instances (Singleton_init :: (string, AppState) Singleton) ''AppState'' = None \<and> ?as \<noteq> []
           \<longrightarrow> r = length (objects (Singleton_init :: (string, AppState) Singleton))
             \<and> objects st' = objects (Singleton_init :: (string, AppState) Singleton)
                                @ [AppState_init (hd ?as)]"
    by blast
  have r: "r = 0" and o: "objects st' = [AppState_init (Some CPU)]"
    using f i by simp_all
  show ?thesis
    unfolding c using l r o by (simp add: AppState_init_def)
qed

end
